theory Spec2Isabelle
  imports Complex_Main "HOL-Library.AList"
begin

section \<open>The retry loop: \<open>runTask\<close>\<close>

text \<open>
  The task engine of the repository (\<open>runTask\<close>, \<open>TaskManager\<close>, \<open>ManagerPool\<close>, in
  the source file \<open>src/unnamed/part_000\<close>, to which the line numbers below refer) is
  asynchronous TypeScript. Each function is modelled by the effects it performs, in
  order, as a list of events, and by the state it leaves behind. Calls of the logger
  are not effects of the model; the debug line of lines 45 to 47 is the one place
  where \<open>runTask\<close> reads \<open>template.initialRun\<close>. The counter \<open>failedAttempts\<close>, which the loop itself
  starts at -1 and increments, is an \<open>int\<close>. The numbers of the retry policy come from
  the user's configuration, where nothing makes them integers: they are rationals
  (\<open>rat\<close>), and so are the delays computed from them; the rounding of JavaScript's
  doubles is not modelled. \<open>Config\<close> and \<open>Data\<close> are the two type parameters of the
  source, fixed here to strings; an array of data with holes is a list of options.
\<close>

type_synonym Config = string
type_synonym Data = string

text \<open>\<open>Retry\<close> of \<open>types.ts\<close>: three optional numbers and the number \<open>retries\<close>.\<close>

record Retry =
  factor :: "rat option"
  maxTimeout :: "rat option"
  minTimeout :: "rat option"
  retries :: rat

text \<open>
  What one call of the user's \<open>template.launch\<close> does: it returns, it throws an error
  whose name is \<open>AbortError\<close>, or it throws an error with another name. What one call of the
  user's \<open>template.teardown\<close> does: it returns or it throws.
\<close>

datatype LaunchResult = Returned | AbortError | Failed

datatype HookResult = HookReturns | HookThrows

text \<open>
  \<open>TaskTemplate\<close> of \<open>types.ts\<close>. The fields \<open>name\<close>, \<open>id\<close>, \<open>cwd\<close> and
  \<open>throttleOutput\<close> only reach the logger and \<open>createSpawn\<close> and are left out;
  \<open>launch\<close> is the environment of a run (\<open>RunEnv\<close> below); \<open>teardown\<close> is the
  optional hook.
\<close>

record TaskTemplate =
  initialRun :: bool
  interruptible :: bool
  persistent :: bool
  retry :: Retry
  teardown :: "HookResult option"

text \<open>The context object that \<open>runTask\<close> hands to \<open>template.launch\<close>;
  \<open>abortSignal\<close> is the state of \<open>abortController.signal.aborted\<close> at the call.\<close>

record TaskContext =
  entryId :: string
  abortSignal :: bool
  attempt :: int
  config :: Config
  first :: bool
  taskId :: string
  data :: Data

text \<open>The errors the engine throws itself, and the error of the user's task.\<close>

datatype Error =
    TaskError
  | ExpectedRetriesLeft
  | ExpectedAbortController
  | PersistentWithoutInitialRun

datatype event =
    Sleep rat
  | Launch TaskContext
  | Aborted string
  | TeardownHook
  | AwaitPromise string

text \<open>
  The environment of one run of \<open>runTask\<close>, by loop iteration (counted from 0):
  what the abort check at the top of the iteration reads, the state of the signal when
  \<open>launch\<close> is called in that iteration (after the delay, if any), and what that call
  of \<open>launch\<close> does.
\<close>

record RunEnv =
  abortedAtTop :: "nat \<Rightarrow> bool"
  abortedAtLaunch :: "nat \<Rightarrow> bool"
  launchResult :: "nat \<Rightarrow> LaunchResult"

text \<open>The arguments of \<open>runTask\<close> other than the template and the abort controller.\<close>

record RunArgs =
  argEntryId :: string
  argConfig :: Config
  argData :: Data
  argTaskId :: string
  firstEvent :: bool

text \<open>Lines 61 to 67: the delay before attempt number \<open>failedAttempts\<close>.\<close>

definition delay :: "Retry \<Rightarrow> int \<Rightarrow> rat" where
  "delay r failedAttempts =
     (let retryFactor = (case factor r of None \<Rightarrow> 2 | Some f \<Rightarrow> f);
          minTimeout' = (case minTimeout r of None \<Rightarrow> 1000 | Some m \<Rightarrow> m);
          maxTimeout' = (case maxTimeout r of None \<Rightarrow> 30000 | Some m \<Rightarrow> m)
      in min (of_int failedAttempts * retryFactor * minTimeout')
             (case maxTimeout r of None \<Rightarrow> maxTimeout' | Some m \<Rightarrow> m))"

text \<open>Lines 60 to 89 of one iteration: the wait, when \<open>failedAttempts > 0\<close>, and then
  the call of \<open>launch\<close>. The wait is \<open>setTimeout(delay)\<close>, called without a signal.\<close>

definition attemptEvents :: "TaskTemplate \<Rightarrow> RunArgs \<Rightarrow> bool \<Rightarrow> int \<Rightarrow> event list" where
  "attemptEvents t a signalAborted failedAttempts =
     (if failedAttempts > 0 then [Sleep (delay (retry t) failedAttempts)] else [])
     @ [Launch \<lparr> entryId = argEntryId a, abortSignal = signalAborted,
                 attempt = failedAttempts, config = argConfig a, first = firstEvent a,
                 taskId = argTaskId a, data = argData a \<rparr>]"

text \<open>
  A call of \<open>runTask\<close> runs without interruption up to its first \<open>await\<close>: the abort
  check of the first iteration, the increment of \<open>failedAttempts\<close> from -1 to 0, no
  wait, and the call of \<open>launch\<close>. These are the effects of the call itself; the rest
  of the run follows when \<open>launch\<close> settles.
\<close>

definition runTask_begin :: "TaskTemplate \<Rightarrow> RunArgs \<Rightarrow> bool \<Rightarrow> event list" where
  "runTask_begin t a signalAborted =
     (if signalAborted then [] else attemptEvents t a signalAborted (- 1 + 1))"

text \<open>How the promise of a run settles; \<open>None\<close> below is a run that has not settled
  within the given number of iterations.\<close>

datatype Settled = Resolved | Rejected Error

definition andThen :: "event list \<Rightarrow> event list \<times> Settled option \<Rightarrow> event list \<times> Settled option" where
  "andThen evs r = (evs @ fst r, snd r)"

text \<open>
  The \<open>while (true)\<close> loop of \<open>runTask\<close> (lines 49 to 164). \<open>n\<close> numbers the
  iteration, \<open>failedAttempts0\<close> is the counter on entry to it. The loop of a persistent
  template need not end, so the model runs at most \<open>fuel\<close> iterations.
\<close>

fun runTask_loop ::
  "nat \<Rightarrow> RunEnv \<Rightarrow> TaskTemplate \<Rightarrow> RunArgs \<Rightarrow> nat \<Rightarrow> int \<Rightarrow> event list \<times> Settled option" where
  "runTask_loop 0 env t a n failedAttempts0 = ([], None)"
| "runTask_loop (Suc fuel) env t a n failedAttempts0 =
     (if abortedAtTop env n then ([], Some Resolved)
      else
        let failedAttempts = failedAttempts0 + 1;
            evs = attemptEvents t a (abortedAtLaunch env n) failedAttempts
        in case launchResult env n of
             Returned \<Rightarrow>
               (if persistent t then andThen evs (runTask_loop fuel env t a (Suc n) 0)
                else (evs, Some Resolved))
           | AbortError \<Rightarrow> (evs, Some Resolved)
           | Failed \<Rightarrow>
               (if persistent t
                then andThen evs (runTask_loop fuel env t a (Suc n) failedAttempts)
                else
                  let retriesLeft = retries (retry t) - of_int failedAttempts
                  in if retriesLeft < 0 then (evs, Some (Rejected ExpectedRetriesLeft))
                     else if retriesLeft = 0 then (evs, Some (Rejected TaskError))
                     else if retriesLeft > 0
                     then andThen evs (runTask_loop fuel env t a (Suc n) failedAttempts)
                     else (evs, Some (Rejected ExpectedRetriesLeft))))"

definition runTask ::
  "nat \<Rightarrow> RunEnv \<Rightarrow> TaskTemplate \<Rightarrow> RunArgs \<Rightarrow> event list \<times> Settled option" where
  "runTask fuel env t a = runTask_loop fuel env t a 0 (- 1)"

text \<open>Projections of a trace: the delays waited and the contexts launched, in order.\<close>

fun sleeps :: "event list \<Rightarrow> rat list" where
  "sleeps [] = []"
| "sleeps (Sleep d # es) = d # sleeps es"
| "sleeps (e # es) = sleeps es"

fun launches :: "event list \<Rightarrow> TaskContext list" where
  "launches [] = []"
| "launches (Launch c # es) = c # launches es"
| "launches (e # es) = launches es"


section \<open>The task manager\<close>

text \<open>
  An \<open>AbortController\<close> is the flag of its signal. \<open>abort\<close> fires the signal the
  first time only; the event names the task the controller belongs to.
\<close>

record AbortController =
  aborted :: bool

definition abort :: "string \<Rightarrow> AbortController \<Rightarrow> event list \<times> AbortController" where
  "abort owner c = (if aborted c then ([], c) else ([Aborted owner], c\<lparr>aborted := True\<rparr>))"

text \<open>
  \<open>createAbortController\<close> (lines 18 to 26): a new controller, not aborted, with a
  listener on the template's signal. The listener is the transition \<open>parentAborted\<close>
  of the manager below.
\<close>

definition createAbortController :: "TaskTemplate \<Rightarrow> AbortController" where
  "createAbortController process = \<lparr> aborted = False \<rparr>"

text \<open>
  \<open>ActiveTask\<close>: the record of lines 304 to 309. The promise of a task is named by
  the id of the task; it is pending as long as the \<open>finally\<close> callback of the task
  (\<open>taskSettled\<close> below) has not run.
\<close>

record ActiveTask =
  abortController :: "AbortController option"
  id' :: string
  promise :: string
  queued :: bool

text \<open>
  A task manager: the arguments and the three variables of the closure of
  \<open>TaskManager\<close> (lines 171 to 189), and the data fields of the record it returns
  (lines 314 to 317). The field \<open>activeTask\<close> of that record is initialised with the
  value of the variable \<open>outerActiveTask\<close> at that moment; no statement of the source
  assigns to it afterwards.
\<close>

record TaskManager =
  template :: TaskTemplate
  managerEntryId :: string
  outerTeardownInitiated :: bool
  outerActiveTask :: "ActiveTask option"
  outerFirstEvent :: bool
  activeTask :: "ActiveTask option"
  managerInitialRun :: bool
  managerPersistent :: bool

definition TaskManager :: "TaskTemplate \<Rightarrow> string \<Rightarrow> TaskManager" where
  "TaskManager t e =
     (let outerTeardownInitiated0 = False;
          outerActiveTask0 = None;
          outerFirstEvent0 = True
      in \<lparr> template = t, managerEntryId = e,
           outerTeardownInitiated = outerTeardownInitiated0,
           outerActiveTask = outerActiveTask0,
           outerFirstEvent = outerFirstEvent0,
           activeTask = outerActiveTask0,
           managerInitialRun = initialRun t,
           managerPersistent = persistent t \<rparr>)"

text \<open>
  \<open>updateConfig\<close> is an async function. It runs without interruption up to its first
  \<open>await\<close> or its return, and that is what a call is in the model; the outcome says
  which of the two it was:
  \<^item> \<open>ReturnedUndefined\<close>: the call returned \<open>undefined\<close>;
  \<^item> \<open>AwaitingPromise p\<close>: the call is suspended at \<open>await outerActiveTask.promise\<close>;
    when \<open>p\<close> has settled it continues with \<open>updateConfig_start\<close>;
  \<^item> \<open>ReturnedTaskPromise p\<close>: the call started a task and returned its promise;
  \<^item> \<open>Thrown e\<close>: the call threw.
\<close>

datatype UpdateOutcome =
    ReturnedUndefined
  | AwaitingPromise string
  | ReturnedTaskPromise string
  | Thrown Error

text \<open>
  Lines 263 to 311, the part of \<open>updateConfig\<close> after the active task is dealt with.
  \<open>taskId'\<close> is the value \<open>generateShortId()\<close> returns. \<open>runTask\<close> is called here,
  with the new controller, and runs up to its own first \<open>await\<close>.
\<close>

definition updateConfig_start ::
  "bool \<Rightarrow> Config \<Rightarrow> Data \<Rightarrow> string \<Rightarrow> TaskManager \<Rightarrow> event list \<times> UpdateOutcome \<times> TaskManager" where
  "updateConfig_start firstEvent' config' data' taskId' m =
     (if outerTeardownInitiated m then ([], ReturnedUndefined, m)
      else
        let abortController' = createAbortController (template m);
            args = \<lparr> argEntryId = managerEntryId m, argConfig = config', argData = data',
                     argTaskId = taskId', firstEvent = firstEvent' \<rparr>;
            evs = runTask_begin (template m) args (aborted abortController')
        in (evs, ReturnedTaskPromise taskId',
            m\<lparr>outerActiveTask :=
                Some \<lparr> abortController = Some abortController', id' = taskId',
                       promise = taskId', queued = False \<rparr>\<rparr>))"

text \<open>Lines 191 to 261, continued by \<open>updateConfig_start\<close> where the source falls
  through.\<close>

definition updateConfig ::
  "TaskManager \<Rightarrow> Config \<Rightarrow> Data \<Rightarrow> string \<Rightarrow> event list \<times> UpdateOutcome \<times> TaskManager" where
  "updateConfig m0 config' data' taskId' =
     (let firstEvent' = outerFirstEvent m0;
          m = (if outerFirstEvent m0 then m0\<lparr>outerFirstEvent := False\<rparr> else m0)
      in case outerActiveTask m of
           None \<Rightarrow> updateConfig_start firstEvent' config' data' taskId' m
         | Some task \<Rightarrow>
             if interruptible (template m) then
               (case abortController task of
                  None \<Rightarrow> ([], Thrown ExpectedAbortController, m)
                | Some c \<Rightarrow>
                    let (evs, c') = abort (id' task) c;
                        task' = task\<lparr>abortController := Some c'\<rparr>
                    in if queued task'
                       then (evs, ReturnedUndefined, m\<lparr>outerActiveTask := Some task'\<rparr>)
                       else (evs, AwaitingPromise (promise task'),
                             m\<lparr>outerActiveTask := Some (task'\<lparr>queued := True\<rparr>)\<rparr>))
             else if persistent (template m) then ([], ReturnedUndefined, m)
             else if queued task then ([], ReturnedUndefined, m)
             else ([], AwaitingPromise (promise task),
                   m\<lparr>outerActiveTask := Some (task\<lparr>queued := True\<rparr>)\<rparr>))"

text \<open>The \<open>finally\<close> callback of a task (lines 282 to 288), run when \<open>runTask\<close> has
  settled, before the promise of the task settles.\<close>

definition taskSettled :: "string \<Rightarrow> TaskManager \<Rightarrow> TaskManager" where
  "taskSettled taskId' m =
     (case outerActiveTask m of
        None \<Rightarrow> m
      | Some task \<Rightarrow> if taskId' = id' task then m\<lparr>outerActiveTask := None\<rparr> else m)"

text \<open>The listener that \<open>createAbortController\<close> puts on the template's signal.\<close>

definition parentAborted :: "TaskManager \<Rightarrow> event list \<times> TaskManager" where
  "parentAborted m =
     (case outerActiveTask m of
        None \<Rightarrow> ([], m)
      | Some task \<Rightarrow>
          (case abortController task of
             None \<Rightarrow> ([], m)
           | Some c \<Rightarrow>
               let (evs, c') = abort (id' task) c
               in (evs, m\<lparr>outerActiveTask := Some (task\<lparr>abortController := Some c'\<rparr>)\<rparr>)))"

text \<open>\<open>teardown\<close> of a manager (lines 319 to 350). An error of the hook is caught
  and logged.\<close>

definition TaskManager_teardown :: "TaskManager \<Rightarrow> event list \<times> TaskManager" where
  "TaskManager_teardown m0 =
     (if outerTeardownInitiated m0 then ([], m0)
      else
        let m = m0\<lparr>outerTeardownInitiated := True\<rparr>;
            (evs, m') =
              (case outerActiveTask m of
                 None \<Rightarrow> ([], m)
               | Some task \<Rightarrow>
                   (case abortController task of
                      None \<Rightarrow> ([], m)
                    | Some c \<Rightarrow>
                        let (evs, c') = abort (id' task) c
                        in (evs, m\<lparr>outerActiveTask := Some (task\<lparr>abortController := Some c'\<rparr>)\<rparr>)));
            hook = (case teardown (template m) of
                      None \<Rightarrow> []
                    | Some HookReturns \<Rightarrow> [TeardownHook]
                    | Some HookThrows \<Rightarrow> [TeardownHook])
        in (evs @ hook, m'))"

text \<open>
  The states a manager can be in: those that the transitions above produce from a new
  manager, in any order and with any arguments.
\<close>

inductive reachable :: "TaskManager \<Rightarrow> bool" where
  created: "reachable (TaskManager t e)"
| updated: "reachable m \<Longrightarrow> reachable (snd (snd (updateConfig m c d i)))"
| resumed: "reachable m \<Longrightarrow> reachable (snd (snd (updateConfig_start f c d i m)))"
| settled: "reachable m \<Longrightarrow> reachable (taskSettled i m)"
| parent: "reachable m \<Longrightarrow> reachable (snd (parentAborted m))"
| torn: "reachable m \<Longrightarrow> reachable (snd (TaskManager_teardown m))"

text \<open>A burst of calls of \<open>updateConfig\<close> on one manager with nothing else in
  between: the outcomes of the calls, in order.\<close>

fun updateConfigs :: "TaskManager \<Rightarrow> (Config \<times> Data \<times> string) list \<Rightarrow> UpdateOutcome list \<times> TaskManager" where
  "updateConfigs m [] = ([], m)"
| "updateConfigs m ((c, d, i) # calls) =
     (case updateConfig m c d i of
        (evs, out, m') \<Rightarrow> (case updateConfigs m' calls of (outs, m'') \<Rightarrow> (out # outs, m'')))"

fun isAwaiting :: "UpdateOutcome \<Rightarrow> bool" where
  "isAwaiting (AwaitingPromise p) = True"
| "isAwaiting out = False"

text \<open>In an interruptible manager a queued task has been aborted: the flag is set
  right after the call of \<open>abort\<close>.\<close>

definition queuedAborted :: "TaskManager \<Rightarrow> bool" where
  "queuedAborted m =
     (case outerActiveTask m of
        None \<Rightarrow> True
      | Some task \<Rightarrow>
          if interruptible (template m) \<and> queued task
          then (case abortController task of None \<Rightarrow> False | Some c \<Rightarrow> aborted c)
          else True)"

text \<open>The active task of the manager has its \<open>queued\<close> flag set.\<close>

definition hasQueued :: "TaskManager \<Rightarrow> bool" where
  "hasQueued m = (case outerActiveTask m of None \<Rightarrow> False | Some task \<Rightarrow> queued task)"

section \<open>The manager pool\<close>

text \<open>
  The \<open>Map\<close> of managers is an association list in insertion order: \<open>get\<close> is
  \<open>map_of\<close>, \<open>set\<close> is \<open>AList.update\<close> (a new key goes to the end), \<open>delete\<close> is
  \<open>AList.delete\<close>, \<open>size\<close> is the length, \<open>values()\<close> runs through the list.
\<close>

record ManagerPool =
  poolTemplate :: TaskTemplate
  managers :: "(nat \<times> TaskManager) list"

definition ManagerPool :: "TaskTemplate \<Rightarrow> ManagerPool" where
  "ManagerPool t = \<lparr> poolTemplate = t, managers = [] \<rparr>"

text \<open>
  \<open>teardown\<close> of the pool (lines 358 to 365). The \<open>await\<close> of line 361 is entered
  when the field \<open>activeTask\<close> of the manager holds a task; it returns when the promise
  of that task has settled, that is after the \<open>finally\<close> callback of the task.
\<close>

fun teardown_loop :: "(nat \<times> TaskManager) list \<Rightarrow> event list \<times> (nat \<times> TaskManager) list" where
  "teardown_loop [] = ([], [])"
| "teardown_loop ((i, manager) # rest) =
     (let (awaited, manager1) =
            (case activeTask manager of
               None \<Rightarrow> ([], manager)
             | Some task \<Rightarrow> ([AwaitPromise (promise task)], taskSettled (id' task) manager));
          (evs, manager2) = TaskManager_teardown manager1;
          (evs', rest') = teardown_loop rest
      in (awaited @ evs @ evs', (i, manager2) # rest'))"

definition ManagerPool_teardown :: "ManagerPool \<Rightarrow> event list \<times> ManagerPool" where
  "ManagerPool_teardown p =
     (let (evs, ms) = teardown_loop (managers p) in (evs, p\<lparr>managers := ms\<rparr>))"

text \<open>\<open>data[i]\<close>: \<open>undefined\<close> at a hole and beyond the end of the array.\<close>

definition dataAt :: "Data option list \<Rightarrow> nat \<Rightarrow> Data option" where
  "dataAt dat i = (if i < length dat then dat ! i else None)"

text \<open>\<open>String(i)\<close>: the decimal digits of an index.\<close>

fun String' :: "nat \<Rightarrow> string" where
  "String' n =
     (if n < 10 then [char_of (48 + n)]
      else String' (n div 10) @ [char_of (48 + n mod 10)])"

declare String'.simps [simp del]

definition thrown :: "UpdateOutcome \<Rightarrow> Error option" where
  "thrown out = (case out of Thrown e \<Rightarrow> Some e | _ \<Rightarrow> None)"

text \<open>
  One iteration of the loop of \<open>trigger\<close> (lines 370 to 384) at index \<open>i\<close>, with the
  error it throws, if any. \<open>newId i\<close> is the id that \<open>generateShortId()\<close> gives to a
  task started at this index. Every \<open>await\<close> of the loop suspends the call; the model
  takes each manager call up to its first suspension (see \<open>updateConfig\<close>) and leaves
  what the manager does meanwhile to the transitions \<open>taskSettled\<close> and
  \<open>updateConfig_start\<close>, which do not touch the map.
\<close>

definition trigger_slot ::
  "TaskTemplate \<Rightarrow> Config \<Rightarrow> Data option list \<Rightarrow> (nat \<Rightarrow> string) \<Rightarrow> nat \<Rightarrow>
   (nat \<times> TaskManager) list \<Rightarrow> event list \<times> Error option \<times> (nat \<times> TaskManager) list" where
  "trigger_slot t config' dat newId i ms =
     (let manager = map_of ms i
      in case dataAt dat i of
           None \<Rightarrow>
             (case manager of
                Some m \<Rightarrow>
                  let (evs, m') = TaskManager_teardown m
                  in (evs, None, AList.delete i ms)
              | None \<Rightarrow> ([], None, ms))
         | Some d \<Rightarrow>
             (case manager of
                Some m \<Rightarrow>
                  let (evs, out, m') = updateConfig m config' d (newId i)
                  in (evs, thrown out, AList.update i m' ms)
              | None \<Rightarrow>
                  let m = TaskManager t (String' i);
                      ms' = AList.update i m ms;
                      (evs, out, m') = updateConfig m config' d (newId i)
                  in (evs, thrown out, AList.update i m' ms')))"

text \<open>The \<open>for\<close> loop inside the \<open>try\<close>: an error ends the loop and is logged.\<close>

fun trigger_loop ::
  "TaskTemplate \<Rightarrow> Config \<Rightarrow> Data option list \<Rightarrow> (nat \<Rightarrow> string) \<Rightarrow> nat list \<Rightarrow>
   (nat \<times> TaskManager) list \<Rightarrow> event list \<times> (nat \<times> TaskManager) list" where
  "trigger_loop t config' dat newId [] ms = ([], ms)"
| "trigger_loop t config' dat newId (i # is) ms =
     (case trigger_slot t config' dat newId i ms of
        (evs, Some e, ms') \<Rightarrow> (evs, ms')
      | (evs, None, ms') \<Rightarrow>
          (case trigger_loop t config' dat newId is ms' of
             (evs', ms'') \<Rightarrow> (evs @ evs', ms'')))"

definition trigger ::
  "ManagerPool \<Rightarrow> Config \<Rightarrow> Data option list \<Rightarrow> (nat \<Rightarrow> string) \<Rightarrow> event list \<times> ManagerPool" where
  "trigger p config' dat newId =
     (let maxLength = max (length dat) (length (managers p));
          (evs, ms) = trigger_loop (poolTemplate p) config' dat newId [0..<maxLength] (managers p)
      in (evs, p\<lparr>managers := ms\<rparr>))"

text \<open>The indices at which an array of data has a defined entry.\<close>

definition definedIndices :: "Data option list \<Rightarrow> nat set" where
  "definedIndices dat = set (filter (\<lambda>i. dat ! i \<noteq> None) [0..<length dat])"


text \<open>Every manager of a map is in a state a manager can be in.\<close>

definition allReachable :: "(nat \<times> TaskManager) list \<Rightarrow> bool" where
  "allReachable ms = list_all (\<lambda>im. reachable (snd im)) ms"

text \<open>
  The states a pool can be in: those that \<open>trigger\<close> and \<open>teardown\<close> produce from a
  new pool, with the transitions of the managers it holds in between.
\<close>

inductive pool_reachable :: "ManagerPool \<Rightarrow> bool" where
  pool_created: "pool_reachable (ManagerPool t)"
| pool_triggered: "pool_reachable p \<Longrightarrow> pool_reachable (snd (trigger p c dat newId))"
| pool_torn: "pool_reachable p \<Longrightarrow> pool_reachable (snd (ManagerPool_teardown p))"
| pool_resumed:
    "pool_reachable p \<Longrightarrow> map_of (managers p) i = Some m \<Longrightarrow>
     pool_reachable (p\<lparr>managers := AList.update i (snd (snd (updateConfig_start f c d j m))) (managers p)\<rparr>)"
| pool_settled:
    "pool_reachable p \<Longrightarrow> map_of (managers p) i = Some m \<Longrightarrow>
     pool_reachable (p\<lparr>managers := AList.update i (taskSettled j m) (managers p)\<rparr>)"
| pool_parent:
    "pool_reachable p \<Longrightarrow> map_of (managers p) i = Some m \<Longrightarrow>
     pool_reachable (p\<lparr>managers := AList.update i (snd (parentAborted m)) (managers p)\<rparr>)"

section \<open>The supervisor: \<open>watch\<close>\<close>

text \<open>\<open>TaskTemplateInput\<close> of \<open>types.ts\<close>, without the fields the template leaves
  out.\<close>

record TaskTemplateInput =
  inputInitialRun :: "bool option"
  inputInterruptible :: "bool option"
  inputPersistent :: "bool option"
  inputRetry :: "Retry option"
  inputTeardown :: "HookResult option"

text \<open>Lines 45 to 69 of \<open>watch\<close> (\<open>src/unnamed/part_005\<close>): the defaults of the flags, the configuration
  error, and the template handed to \<open>ManagerPool\<close>.\<close>

definition taskTemplate :: "TaskTemplateInput \<Rightarrow> Error + TaskTemplate" where
  "taskTemplate task =
     (let initialRun' = (case inputInitialRun task of None \<Rightarrow> True | Some b \<Rightarrow> b);
          persistent' = (case inputPersistent task of None \<Rightarrow> False | Some b \<Rightarrow> b)
      in if persistent' \<and> \<not> initialRun' then Inl PersistentWithoutInitialRun
         else Inr \<lparr> initialRun = initialRun',
                    interruptible = (case inputInterruptible task of None \<Rightarrow> True | Some b \<Rightarrow> b),
                    persistent = persistent',
                    retry = (case inputRetry task of
                               None \<Rightarrow> \<lparr> factor = None, maxTimeout = None,
                                          minTimeout = None, retries = 3 \<rparr>
                             | Some r \<Rightarrow> r),
                    teardown = inputTeardown task \<rparr>)"

record Watch =
  terminating :: bool
  ready :: bool
  managerPool :: ManagerPool

definition watch :: "TaskTemplateInput \<Rightarrow> Error + Watch" where
  "watch task =
     (case taskTemplate task of
        Inl e \<Rightarrow> Inl e
      | Inr t \<Rightarrow> Inr \<lparr> terminating = False, ready = False, managerPool = ManagerPool t \<rparr>)"

text \<open>
  The handler of the watcher's \<open>ready\<close> event (lines 144 to 171). \<open>parsed\<close> is what
  reading and parsing the configuration file gives: \<open>None\<close> when that throws, else
  the configuration and the data derived from it. The call of \<open>trigger\<close> is not
  awaited and no test of \<open>initialRun\<close> stands before it; the callback \<open>onAfterEmit\<close>
  is left out.
\<close>

definition onReady ::
  "Watch \<Rightarrow> (Config \<times> Data option list) option \<Rightarrow> (nat \<Rightarrow> string) \<Rightarrow> event list \<times> Watch" where
  "onReady w0 parsed newId =
     (let w = w0\<lparr>ready := True\<rparr>
      in if \<not> terminating w then
           (case parsed of
              None \<Rightarrow> ([], w)
            | Some (config', dat) \<Rightarrow>
                let (evs, p) = trigger (managerPool w) config' dat newId
                in (evs, w\<lparr>managerPool := p\<rparr>))
         else ([], w))"

section \<open>\<open>defineConfigWatcher\<close>\<close>

text \<open>
  A configuration object is a map from property names to values; a property that is
  present with the value \<open>undefined\<close> is a key of the map. The object literal of
  \<open>defineConfigWatcher\<close> writes the property \<open>Watcher\<close> first and then spreads the
  input over it.
\<close>

datatype JsValue = TurboWatcher | Undefined | Value string

definition defineConfigWatcher :: "(string \<rightharpoonup> JsValue) \<Rightarrow> (string \<rightharpoonup> JsValue)" where
  "defineConfigWatcher configurationInput =
     [''Watcher'' \<mapsto> TurboWatcher] ++ configurationInput"

section \<open>Inputs used below\<close>

definition defaultRetry :: Retry where
  "defaultRetry = \<lparr> factor = None, maxTimeout = None, minTimeout = None, retries = 3 \<rparr>"

definition defaultTemplate :: TaskTemplate where
  "defaultTemplate = \<lparr> initialRun = True, interruptible = True, persistent = False,
                        retry = defaultRetry, teardown = Some HookReturns \<rparr>"

definition persistentTemplate :: TaskTemplate where
  "persistentTemplate = \<lparr> initialRun = True, interruptible = True, persistent = True,
                           retry = defaultRetry, teardown = None \<rparr>"

definition backoffTemplate :: TaskTemplate where
  "backoffTemplate = \<lparr> initialRun = True, interruptible = True, persistent = False,
                        retry = \<lparr> factor = Some 2, maxTimeout = Some 1000,
                                  minTimeout = Some 100, retries = 2 \<rparr>,
                        teardown = None \<rparr>"

text \<open>A template whose \<open>retries\<close> is not an integer.\<close>

definition halfRetryTemplate :: TaskTemplate where
  "halfRetryTemplate = \<lparr> initialRun = True, interruptible = True, persistent = False,
                          retry = \<lparr> factor = None, maxTimeout = None,
                                    minTimeout = None, retries = 1 / 2 \<rparr>,
                          teardown = None \<rparr>"

definition noInitialRun :: TaskTemplateInput where
  "noInitialRun = \<lparr> inputInitialRun = Some False, inputInterruptible = None,
                     inputPersistent = None, inputRetry = None, inputTeardown = None \<rparr>"

definition firstArgs :: RunArgs where
  "firstArgs = \<lparr> argEntryId = ''0'', argConfig = ''config'', argData = ''a'',
                  argTaskId = ''t0'', firstEvent = True \<rparr>"

definition launchContext :: "int \<Rightarrow> bool \<Rightarrow> TaskContext" where
  "launchContext k s = \<lparr> entryId = ''0'', abortSignal = s, attempt = k, config = ''config'',
                          first = True, taskId = ''t0'', data = ''a'' \<rparr>"

definition alwaysReturns :: RunEnv where
  "alwaysReturns = \<lparr> abortedAtTop = (\<lambda>n. False), abortedAtLaunch = (\<lambda>n. False),
                      launchResult = (\<lambda>n. Returned) \<rparr>"

definition alwaysFails :: RunEnv where
  "alwaysFails = \<lparr> abortedAtTop = (\<lambda>n. False), abortedAtLaunch = (\<lambda>n. False),
                    launchResult = (\<lambda>n. Failed) \<rparr>"

text \<open>The first launch fails; the task is cancelled during the wait that follows, and
  the second launch, called with the aborted signal, throws an \<open>AbortError\<close>.\<close>

definition cancelledInWait :: RunEnv where
  "cancelledInWait = \<lparr> abortedAtTop = (\<lambda>n. 2 \<le> n), abortedAtLaunch = (\<lambda>n. 1 \<le> n),
                        launchResult = (\<lambda>n. if n = 0 then Failed else AbortError) \<rparr>"

definition taskIds :: "nat \<Rightarrow> string" where
  "taskIds i = ''t'' @ String' i"

text \<open>A pool after one call of \<open>trigger\<close> with one entry: the task of slot 0 is
  launched and its promise is pending.\<close>

definition runningPool :: ManagerPool where
  "runningPool = snd (trigger (ManagerPool defaultTemplate) ''config'' [Some ''a''] taskIds)"

text \<open>A pool triggered with a hole at index 0 and an entry at index 1, and then with
  the empty array.\<close>

definition holePool :: ManagerPool where
  "holePool = snd (trigger (ManagerPool defaultTemplate) ''config'' [None, Some ''b''] taskIds)"

definition shrunkPool :: ManagerPool where
  "shrunkPool = snd (trigger holePool ''config'' [] taskIds)"

text \<open>A manager after its first update, with its task in flight, and the same
  manager after a second update, which is queued behind the task.\<close>

definition runningManager :: TaskManager where
  "runningManager =
     snd (snd (updateConfig (TaskManager defaultTemplate ''0'') ''config'' ''a'' ''t0''))"

definition queuedManager :: TaskManager where
  "queuedManager = snd (snd (updateConfig runningManager ''config'' ''b'' ''t1''))"

definition pendingTask :: ActiveTask where
  "pendingTask = \<lparr> abortController = Some \<lparr> aborted = False \<rparr>, id' = ''t0'',
                    promise = ''t0'', queued = False \<rparr>"

definition queuedTask :: ActiveTask where
  "queuedTask = \<lparr> abortController = Some \<lparr> aborted = True \<rparr>, id' = ''t0'',
                   promise = ''t0'', queued = True \<rparr>"

definition waitingTemplate :: TaskTemplate where
  "waitingTemplate = \<lparr> initialRun = True, interruptible = False, persistent = False,
                        retry = defaultRetry, teardown = None \<rparr>"

definition burst :: "(Config \<times> Data \<times> string) list" where
  "burst = [(''config'', ''a'', ''t0''), (''config'', ''b'', ''t1''),
            (''config'', ''c'', ''t2''), (''config'', ''d'', ''t3'')]"

definition plainInput :: "string \<rightharpoonup> JsValue" where
  "plainInput = [''configPath'' \<mapsto> Value ''eirenewatch.json'']"

definition chokidarInput :: "string \<rightharpoonup> JsValue" where
  "chokidarInput = [''configPath'' \<mapsto> Value ''eirenewatch.json'',
                    ''Watcher'' \<mapsto> Value ''ChokidarWatcher'']"

section \<open>Properties of the retry loop\<close>

lemma andThen_simps [simp]: "fst (andThen evs r) = evs @ fst r" "snd (andThen evs r) = snd r"
  by (simp_all add: andThen_def)

lemma sleeps_append [simp]: "sleeps (xs @ ys) = sleeps xs @ sleeps ys"
  by (induction xs rule: sleeps.induct) simp_all

lemma launches_append [simp]: "launches (xs @ ys) = launches xs @ launches ys"
  by (induction xs rule: launches.induct) simp_all

lemma sleeps_attemptEvents [simp]:
  "sleeps (attemptEvents t a s k) = (if k > 0 then [delay (retry t) k] else [])"
  by (simp add: attemptEvents_def)

lemma attempt_launches_attemptEvents [simp]:
  "map attempt (launches (attemptEvents t a s k)) = [k]"
  by (simp add: attemptEvents_def)

text \<open>The effects of the call of \<open>runTask\<close> are the first effects of the run.\<close>

lemma runTask_begins:
  "runTask_begin t a False = [Launch \<lparr> entryId = argEntryId a, abortSignal = False,
      attempt = 0, config = argConfig a, first = firstEvent a, taskId = argTaskId a,
      data = argData a \<rparr>]"
  "\<not> abortedAtTop env 0 \<Longrightarrow> \<not> abortedAtLaunch env 0 \<Longrightarrow>
   take 1 (fst (runTask (Suc fuel) env t a)) = runTask_begin t a False"
  by (cases "launchResult env 0";
      simp add: runTask_begin_def runTask_def attemptEvents_def Let_def)+

subsection \<open>Retry arithmetic\<close>

text \<open>The decision of lines 130 to 158 when \<open>retries\<close> is an integer.\<close>

lemma retriesLeft_of_int:
  "retries (retry t) = of_int r \<Longrightarrow>
   retries (retry t) - of_int f = (of_int (r - f) :: rat)"
  by simp

lemma loop_failed_int:
  assumes np: "\<not> persistent t"
    and r: "retries (retry t) = of_int r"
    and top: "\<not> abortedAtTop env n"
    and fail: "launchResult env n = Failed"
    and le: "f0 + 1 \<le> r"
  shows "runTask_loop (Suc fuel) env t a n f0 =
     (if r = f0 + 1
      then (attemptEvents t a (abortedAtLaunch env n) (f0 + 1), Some (Rejected TaskError))
      else andThen (attemptEvents t a (abortedAtLaunch env n) (f0 + 1))
             (runTask_loop fuel env t a (Suc n) (f0 + 1)))"
proof -
  have rl: "retries (retry t) - of_int (f0 + 1) = (of_int (r - (f0 + 1)) :: rat)"
    using r by (rule retriesLeft_of_int)
  have step: "runTask_loop (Suc fuel) env t a n f0 =
     (let retriesLeft = retries (retry t) - of_int (f0 + 1);
          evs = attemptEvents t a (abortedAtLaunch env n) (f0 + 1)
      in if retriesLeft < 0 then (evs, Some (Rejected ExpectedRetriesLeft))
         else if retriesLeft = 0 then (evs, Some (Rejected TaskError))
         else if retriesLeft > 0
         then andThen evs (runTask_loop fuel env t a (Suc n) (f0 + 1))
         else (evs, Some (Rejected ExpectedRetriesLeft)))"
    using np top fail by (simp add: Let_def)
  show ?thesis unfolding step rl Let_def using le by simp
qed

text \<open>When every launch fails and nobody cancels, the loop started with the counter
  at \<open>k - 1\<close> runs the attempts \<open>k\<close> to \<open>R\<close> and rejects with the task's error.\<close>

lemma loop_all_fail:
  assumes np: "\<not> persistent t"
    and R: "retries (retry t) = of_nat R"
    and fail: "\<forall>n. launchResult env n = Failed"
    and noabort: "\<forall>n. \<not> abortedAtTop env n"
  shows "k \<le> R \<Longrightarrow> R - k < fuel \<Longrightarrow>
         runTask_loop fuel env t a k (int k - 1) =
           (concat (map (\<lambda>j. attemptEvents t a (abortedAtLaunch env j) (int j)) [k..<Suc R]),
            Some (Rejected TaskError))"
proof (induction "R - k" arbitrary: k fuel)
  case 0
  then have kR: "k = R" by simp
  from 0 obtain f where f: "fuel = Suc f" by (cases fuel) auto
  have r: "retries (retry t) = of_int (int R)" using R by simp
  have "runTask_loop (Suc f) env t a k (int k - 1) =
      (attemptEvents t a (abortedAtLaunch env k) (int k), Some (Rejected TaskError))"
    using loop_failed_int [OF np r, of env k "int k - 1" f a] fail noabort kR by simp
  then show ?case by (simp add: f kR)
next
  case (Suc d)
  then have lt: "k < R" by simp
  from Suc obtain f where f: "fuel = Suc f" by (cases fuel) auto
  have d: "d = R - Suc k" using Suc by simp
  have r: "retries (retry t) = of_int (int R)" using R by simp
  have IH: "runTask_loop f env t a (Suc k) (int k) =
           (concat (map (\<lambda>j. attemptEvents t a (abortedAtLaunch env j) (int j)) [Suc k..<Suc R]),
            Some (Rejected TaskError))"
    using Suc.hyps(1) [OF d, of f] lt Suc.prems f by simp
  have step: "runTask_loop (Suc f) env t a k (int k - 1) =
      andThen (attemptEvents t a (abortedAtLaunch env k) (int k))
        (runTask_loop f env t a (Suc k) (int k))"
    using loop_failed_int [OF np r, of env k "int k - 1" f a] fail noabort lt by simp
  have up: "[k..<Suc R] = k # [Suc k..<Suc R]" using lt by (simp add: upt_conv_Cons)
  show ?case unfolding up f step IH by (simp add: andThen_def)
qed

lemma sleeps_concat_attempts:
  "sleeps (concat (map (\<lambda>j. attemptEvents t a (s j) (int j)) js)) =
   map (\<lambda>j. delay (retry t) (int j)) (filter (\<lambda>j. 0 < j) js)"
  by (induction js) simp_all

lemma launches_concat_attempts:
  "map attempt (launches (concat (map (\<lambda>j. attemptEvents t a (s j) (int j)) js))) = map int js"
  by (induction js) simp_all

lemma filter_pos_upt: "filter (\<lambda>j. 0 < j) [0..<Suc R] = [1..<Suc R]"
proof -
  have "[0..<Suc R] = 0 # [1..<Suc R]" by (simp add: upt_conv_Cons del: upt_Suc)
  moreover have "filter (\<lambda>j. 0 < j) [1..<Suc R] = [1..<Suc R]"
    by (rule filter_True) auto
  ultimately show ?thesis by (simp del: upt_Suc)
qed

text \<open>
  Claim C3. For a template that is not persistent and has \<open>retries = R\<close>, when every
  call of \<open>launch\<close> fails with an error other than \<open>AbortError\<close> and the task is not
  cancelled, the effects of the loop are, in this order and with nothing else: for
  \<open>k\<close> from 0 to \<open>R\<close>, first, when \<open>k \<ge> 1\<close>, the wait of
  \<open>min (k * factor * minTimeout) maxTimeout\<close> milliseconds, with the defaults 2, 1000
  and 30000, and then the call of \<open>launch\<close> with the attempt number \<open>k\<close>. So the
  \<open>k\<close>-th wait lies between attempt \<open>k - 1\<close> and attempt \<open>k\<close>, \<open>launch\<close> is called
  exactly \<open>R + 1\<close> times, and for \<open>R = 0\<close> there is one launch and no wait. The promise
  of the loop is then rejected with the task's error. More than \<open>R\<close> iterations of
  fuel are enough for the loop to settle.
\<close>

theorem runTask_retry_arithmetic:
  assumes np: "\<not> persistent t"
    and R: "retries (retry t) = of_nat R"
    and fail: "\<forall>n. launchResult env n = Failed"
    and noabort: "\<forall>n. \<not> abortedAtTop env n"
    and fuel: "R < fuel"
  shows "fst (runTask fuel env t a) =
           concat (map (\<lambda>k.
               (if 0 < k
                then [Sleep (min (of_nat k
                                   * (case factor (retry t) of None \<Rightarrow> 2 | Some f \<Rightarrow> f)
                                   * (case minTimeout (retry t) of None \<Rightarrow> 1000 | Some m \<Rightarrow> m))
                                 (case maxTimeout (retry t) of None \<Rightarrow> 30000 | Some m \<Rightarrow> m))]
                else [])
               @ [Launch \<lparr> entryId = argEntryId a, abortSignal = abortedAtLaunch env k,
                           attempt = int k, config = argConfig a, first = firstEvent a,
                           taskId = argTaskId a, data = argData a \<rparr>])
             [0..<R + 1])
       \<and> snd (runTask fuel env t a) = Some (Rejected TaskError)
       \<and> length (launches (fst (runTask fuel env t a))) = R + 1
       \<and> map attempt (launches (fst (runTask fuel env t a))) = map int [0..<R + 1]
       \<and> sleeps (fst (runTask fuel env t a)) =
           map (\<lambda>k. min (of_nat k * (case factor (retry t) of None \<Rightarrow> 2 | Some f \<Rightarrow> f)
                                * (case minTimeout (retry t) of None \<Rightarrow> 1000 | Some m \<Rightarrow> m))
                         (case maxTimeout (retry t) of None \<Rightarrow> 30000 | Some m \<Rightarrow> m))
               [1..<R + 1]
       \<and> (R = 0 \<longrightarrow> fst (runTask fuel env t a) =
             [Launch \<lparr> entryId = argEntryId a, abortSignal = abortedAtLaunch env 0,
                       attempt = 0, config = argConfig a, first = firstEvent a,
                       taskId = argTaskId a, data = argData a \<rparr>])"
proof -
  have run: "runTask fuel env t a =
      (concat (map (\<lambda>j. attemptEvents t a (abortedAtLaunch env j) (int j)) [0..<Suc R]),
       Some (Rejected TaskError))"
    using loop_all_fail [OF np R fail noabort, of 0 fuel a] fuel
    by (simp add: runTask_def)
  have d: "delay (retry t) (int k) =
      min (of_nat k * (case factor (retry t) of None \<Rightarrow> 2 | Some f \<Rightarrow> f)
                    * (case minTimeout (retry t) of None \<Rightarrow> 1000 | Some m \<Rightarrow> m))
          (case maxTimeout (retry t) of None \<Rightarrow> 30000 | Some m \<Rightarrow> m)" for k
    by (simp add: delay_def Let_def split: option.splits)
  have ev: "attemptEvents t a s (int k) =
      (if 0 < k
       then [Sleep (min (of_nat k * (case factor (retry t) of None \<Rightarrow> 2 | Some f \<Rightarrow> f)
                                  * (case minTimeout (retry t) of None \<Rightarrow> 1000 | Some m \<Rightarrow> m))
                        (case maxTimeout (retry t) of None \<Rightarrow> 30000 | Some m \<Rightarrow> m))]
       else [])
      @ [Launch \<lparr> entryId = argEntryId a, abortSignal = s, attempt = int k,
                  config = argConfig a, first = firstEvent a, taskId = argTaskId a,
                  data = argData a \<rparr>]" for s k
    unfolding attemptEvents_def d [symmetric] by simp
  have tr: "fst (runTask fuel env t a) =
           concat (map (\<lambda>k.
               (if 0 < k
                then [Sleep (min (of_nat k
                                   * (case factor (retry t) of None \<Rightarrow> 2 | Some f \<Rightarrow> f)
                                   * (case minTimeout (retry t) of None \<Rightarrow> 1000 | Some m \<Rightarrow> m))
                                 (case maxTimeout (retry t) of None \<Rightarrow> 30000 | Some m \<Rightarrow> m))]
                else [])
               @ [Launch \<lparr> entryId = argEntryId a, abortSignal = abortedAtLaunch env k,
                           attempt = int k, config = argConfig a, first = firstEvent a,
                           taskId = argTaskId a, data = argData a \<rparr>])
             [0..<R + 1])"
    unfolding run fst_conv ev by simp
  have res: "snd (runTask fuel env t a) = Some (Rejected TaskError)"
    unfolding run by simp
  have att: "map attempt (launches (fst (runTask fuel env t a))) = map int [0..<R + 1]"
    unfolding run by (simp add: launches_concat_attempts del: upt_Suc)
  have len: "length (launches (fst (runTask fuel env t a))) = R + 1"
    using arg_cong [OF att, of length] by simp
  have sl: "sleeps (fst (runTask fuel env t a)) =
           map (\<lambda>k. min (of_nat k * (case factor (retry t) of None \<Rightarrow> 2 | Some f \<Rightarrow> f)
                                * (case minTimeout (retry t) of None \<Rightarrow> 1000 | Some m \<Rightarrow> m))
                         (case maxTimeout (retry t) of None \<Rightarrow> 30000 | Some m \<Rightarrow> m))
               [1..<R + 1]"
    unfolding run fst_conv sleeps_concat_attempts filter_pos_upt d by simp
  have one: "R = 0 \<longrightarrow> fst (runTask fuel env t a) =
             [Launch \<lparr> entryId = argEntryId a, abortSignal = abortedAtLaunch env 0,
                       attempt = 0, config = argConfig a, first = firstEvent a,
                       taskId = argTaskId a, data = argData a \<rparr>]"
    unfolding run by (simp add: attemptEvents_def)
  from tr res len att sl one show ?thesis by blast
qed

theorem runTask_retry_arithmetic_witness:
  "\<not> persistent backoffTemplate \<and> retries (retry backoffTemplate) = of_nat 2
   \<and> (\<forall>n. launchResult alwaysFails n = Failed) \<and> (\<forall>n. \<not> abortedAtTop alwaysFails n)
   \<and> fst (runTask 3 alwaysFails backoffTemplate firstArgs) =
       [Launch (launchContext 0 False), Sleep 200, Launch (launchContext 1 False),
        Sleep 400, Launch (launchContext 2 False)]
   \<and> snd (runTask 3 alwaysFails backoffTemplate firstArgs) = Some (Rejected TaskError)
   \<and> length (launches (fst (runTask 3 alwaysFails backoffTemplate firstArgs))) = 3
   \<and> sleeps (fst (runTask 3 alwaysFails backoffTemplate firstArgs)) = [200, 400]"
  using runTask_retry_arithmetic [of backoffTemplate 2 alwaysFails 3 firstArgs]
  by (simp add: backoffTemplate_def alwaysFails_def firstArgs_def launchContext_def
      upt_conv_Cons)

subsection \<open>The guard on \<open>retriesLeft\<close>\<close>

lemma loop_guard_unreachable:
  assumes np: "\<not> persistent t" and r: "retries (retry t) = of_int r"
  shows "failedAttempts0 < r \<Longrightarrow>
   snd (runTask_loop fuel env t a n failedAttempts0) \<noteq> Some (Rejected ExpectedRetriesLeft)"
proof (induction fuel arbitrary: n failedAttempts0)
  case 0
  then show ?case by simp
next
  case (Suc fuel)
  show ?case
  proof (cases "abortedAtTop env n")
    case True
    then show ?thesis by simp
  next
    case top: False
    show ?thesis
    proof (cases "launchResult env n")
      case Returned
      with np top show ?thesis by simp
    next
      case AbortError
      with top show ?thesis by simp
    next
      case Failed
      from Suc.prems have le: "failedAttempts0 + 1 \<le> r" by simp
      note step = loop_failed_int [OF np r top Failed le, of fuel a]
      show ?thesis
      proof (cases "r = failedAttempts0 + 1")
        case True
        then show ?thesis unfolding step by simp
      next
        case False
        with le have lt: "failedAttempts0 + 1 < r" by simp
        from Suc.IH [OF lt, of "Suc n"] False show ?thesis unfolding step by simp
      qed
    qed
  qed
qed

lemma loop_attempts_bounded:
  assumes np: "\<not> persistent t" and r: "retries (retry t) = of_int r"
  shows "failedAttempts0 < r \<Longrightarrow>
   \<forall>c \<in> set (launches (fst (runTask_loop fuel env t a n failedAttempts0))). attempt c \<le> r"
proof (induction fuel arbitrary: n failedAttempts0)
  case 0
  then show ?case by simp
next
  case (Suc fuel)
  have here: "launches (attemptEvents t a s (failedAttempts0 + 1)) =
      [\<lparr> entryId = argEntryId a, abortSignal = s, attempt = failedAttempts0 + 1,
          config = argConfig a, first = firstEvent a, taskId = argTaskId a, data = argData a \<rparr>]" for s
    by (simp add: attemptEvents_def)
  from Suc.prems have le: "failedAttempts0 + 1 \<le> r" by simp
  show ?case
  proof (cases "abortedAtTop env n")
    case True
    then show ?thesis by simp
  next
    case top: False
    show ?thesis
    proof (cases "launchResult env n")
      case Returned
      with np top le show ?thesis by (simp add: here)
    next
      case AbortError
      with top le show ?thesis by (simp add: here)
    next
      case Failed
      note step = loop_failed_int [OF np r top Failed le, of fuel a]
      show ?thesis
      proof (cases "r = failedAttempts0 + 1")
        case True
        then show ?thesis unfolding step by (simp add: here)
      next
        case False
        with le have lt: "failedAttempts0 + 1 < r" by simp
        from Suc.IH [OF lt, of "Suc n"] False le show ?thesis
          unfolding step by (simp add: here)
      qed
    qed
  qed
qed

text \<open>
  Claim C9, as stated, fails. The claim is made for every template that is not
  persistent and has \<open>retries \<ge> 0\<close>; \<open>retries\<close> is a \<open>number\<close>, and no line of the
  source makes it an integer. With \<open>retries = 0.5\<close> and launches that fail, the first
  failure computes \<open>retriesLeft = 0.5\<close> and the loop continues; the second computes
  \<open>retriesLeft = -0.5\<close>, and the guard of line 132 throws
  \<open>Expected retries left to be greater than or equal to 0\<close>.
\<close>

theorem fractional_retries_counterexample:
  "\<not> persistent halfRetryTemplate \<and> 0 \<le> retries (retry halfRetryTemplate)
   \<and> retries (retry halfRetryTemplate) - of_int 1 = - (1 / 2)
   \<and> runTask 2 alwaysFails halfRetryTemplate firstArgs =
       ([Launch (launchContext 0 False), Sleep 2000, Launch (launchContext 1 False)],
        Some (Rejected ExpectedRetriesLeft))"
  by (simp add: runTask_def numeral_2_eq_2 alwaysFails_def halfRetryTemplate_def firstArgs_def
      launchContext_def attemptEvents_def andThen_def delay_def)

text \<open>
  Claim C9, amended. For a template that is not persistent and whose \<open>retries\<close> is a
  non-negative integer, no run of \<open>runTask\<close> ends in the error
  \<open>Expected retries left to be greater than or equal to 0\<close>, for any environment and
  any number of iterations; and the attempt number of every launch, which is the value
  of \<open>failedAttempts\<close> from which \<open>retriesLeft\<close> is computed when that launch fails,
  leaves \<open>retries - failedAttempts\<close> non-negative.
\<close>

theorem retriesLeft_never_negative:
  assumes np: "\<not> persistent t"
    and int: "retries (retry t) \<in> \<int>"
    and nonneg: "0 \<le> retries (retry t)"
  shows "snd (runTask fuel env t a) \<noteq> Some (Rejected ExpectedRetriesLeft)
       \<and> (\<forall>c \<in> set (launches (fst (runTask fuel env t a))).
             0 \<le> retries (retry t) - of_int (attempt c))"
proof -
  from int obtain r where r: "retries (retry t) = of_int r" by (rule Ints_cases)
  with nonneg have lt: "- 1 < r" by simp
  have "snd (runTask fuel env t a) \<noteq> Some (Rejected ExpectedRetriesLeft)"
    unfolding runTask_def by (rule loop_guard_unreachable [OF np r lt])
  moreover have "\<forall>c \<in> set (launches (fst (runTask fuel env t a))). attempt c \<le> r"
    unfolding runTask_def by (rule loop_attempts_bounded [OF np r lt])
  ultimately show ?thesis by (simp add: r)
qed

theorem retriesLeft_never_negative_witness:
  "\<not> persistent backoffTemplate \<and> retries (retry backoffTemplate) = of_int 2
   \<and> 0 \<le> retries (retry backoffTemplate)
   \<and> snd (runTask 3 alwaysFails backoffTemplate firstArgs) \<noteq> Some (Rejected ExpectedRetriesLeft)
   \<and> list_all (\<lambda>c. 0 \<le> retries (retry backoffTemplate) - of_int (attempt c))
         (launches (fst (runTask 3 alwaysFails backoffTemplate firstArgs)))"
proof -
  have i: "retries (retry backoffTemplate) \<in> \<int>" by (simp add: backoffTemplate_def)
  have n: "0 \<le> retries (retry backoffTemplate)" by (simp add: backoffTemplate_def)
  have p: "\<not> persistent backoffTemplate" by (simp add: backoffTemplate_def)
  from retriesLeft_never_negative [OF p i n, of 3 alwaysFails firstArgs] p n
  show ?thesis by (simp add: backoffTemplate_def list_all_iff)
qed

subsection \<open>A persistent task that returns\<close>

text \<open>
  Claim C2. The claim is that a persistent template is launched again at once when
  \<open>launch\<close> returns. In the source the success path sets \<open>failedAttempts = 0\<close> and
  continues; the top of the loop increments the counter to 1, and the wait of
  \<open>failedAttempts > 0\<close> is taken. With the default retry policy the second launch
  comes after a wait of 2000 ms and carries the attempt number 1.
\<close>

theorem persistent_success_is_delayed:
  "fst (runTask 2 alwaysReturns persistentTemplate firstArgs) =
     [Launch (launchContext 0 False), Sleep 2000, Launch (launchContext 1 False)]"
  by (simp add: runTask_def numeral_2_eq_2 alwaysReturns_def persistentTemplate_def firstArgs_def
      launchContext_def attemptEvents_def andThen_def delay_def defaultRetry_def)

subsection \<open>Cancellation and the backoff wait\<close>

text \<open>
  Claim C6, as stated, fails. The first launch fails, cancellation is signalled during
  the wait that follows (it is not yet signalled at the top of iteration 1 and it is
  when \<open>launch\<close> is called in iteration 1): the loop waits the 2000 ms and calls
  \<open>launch\<close> a second time.
\<close>

theorem cancel_during_wait_counterexample:
  "\<not> abortedAtTop cancelledInWait 1 \<and> abortedAtLaunch cancelledInWait 1
   \<and> runTask 2 cancelledInWait defaultTemplate firstArgs =
       ([Launch (launchContext 0 False), Sleep 2000, Launch (launchContext 1 True)],
        Some Resolved)"
  by (simp add: runTask_def numeral_2_eq_2 cancelledInWait_def defaultTemplate_def firstArgs_def
      launchContext_def attemptEvents_def andThen_def delay_def defaultRetry_def)

text \<open>
  Claim C6, amended. The loop reads the abort signal only at the top of an iteration,
  before the wait: a task that is cancelled there returns without waiting and without
  calling \<open>launch\<close>. An iteration that has passed the check and has a failed attempt
  behind it waits the whole delay and then calls \<open>launch\<close>, whatever the state of the
  signal after the wait; that state is what \<open>launch\<close> receives.
\<close>

theorem abort_checked_only_at_loop_top:
  "(abortedAtTop env n \<longrightarrow>
      runTask_loop (Suc fuel) env t a n failedAttempts0 = ([], Some Resolved))
   \<and> (\<not> abortedAtTop env n \<and> 0 \<le> failedAttempts0 \<longrightarrow>
        take 2 (fst (runTask_loop (Suc fuel) env t a n failedAttempts0)) =
          [Sleep (delay (retry t) (failedAttempts0 + 1)),
           Launch \<lparr> entryId = argEntryId a, abortSignal = abortedAtLaunch env n,
                    attempt = failedAttempts0 + 1, config = argConfig a,
                    first = firstEvent a, taskId = argTaskId a, data = argData a \<rparr>])"
  by (cases "launchResult env n") (simp_all add: Let_def attemptEvents_def)

theorem abort_checked_only_at_loop_top_witness:
  "abortedAtTop cancelledInWait 2
   \<and> runTask_loop (Suc 0) cancelledInWait defaultTemplate firstArgs 2 1 = ([], Some Resolved)
   \<and> \<not> abortedAtTop cancelledInWait 1 \<and> (0::int) \<le> 0
   \<and> take 2 (fst (runTask_loop (Suc 0) cancelledInWait defaultTemplate firstArgs 1 0)) =
        [Sleep 2000, Launch (launchContext 1 True)]"
  using abort_checked_only_at_loop_top [of cancelledInWait 2 0 defaultTemplate firstArgs 1]
    abort_checked_only_at_loop_top [of cancelledInWait 1 0 defaultTemplate firstArgs 0]
  by (simp add: cancelledInWait_def defaultTemplate_def firstArgs_def launchContext_def
      delay_def defaultRetry_def)


section \<open>Properties of the task manager\<close>

text \<open>No transition changes the template of a manager.\<close>

lemma template_updateConfig_start [simp]:
  "template (snd (snd (updateConfig_start f c d i m))) = template m"
  by (simp add: updateConfig_start_def Let_def)

lemma template_updateConfig [simp]:
  "template (snd (snd (updateConfig m c d i))) = template m"
  by (simp add: updateConfig_def updateConfig_start_def Let_def abort_def
      split: option.splits prod.splits)

lemma template_taskSettled [simp]: "template (taskSettled i m) = template m"
  by (simp add: taskSettled_def split: option.splits)

lemma template_parentAborted [simp]: "template (snd (parentAborted m)) = template m"
  by (simp add: parentAborted_def abort_def Let_def split: option.splits prod.splits)

lemma template_teardown [simp]: "template (snd (TaskManager_teardown m)) = template m"
  by (simp add: TaskManager_teardown_def abort_def Let_def split: option.splits prod.splits)

subsection \<open>The queue of one\<close>

text \<open>Every transition keeps \<open>queuedAborted\<close>, so it holds in every state a manager
  can be in; and the field \<open>activeTask\<close> of the returned record stays \<open>null\<close>.\<close>

lemma queuedAborted_updateConfig_start:
  "queuedAborted m \<Longrightarrow> queuedAborted (snd (snd (updateConfig_start f c d i m)))"
  by (auto simp add: queuedAborted_def updateConfig_start_def Let_def split: option.splits)

lemma queuedAborted_updateConfig:
  "queuedAborted m \<Longrightarrow> queuedAborted (snd (snd (updateConfig m c d i)))"
  by (auto simp add: queuedAborted_def updateConfig_def updateConfig_start_def Let_def abort_def
      split: option.splits prod.splits if_splits)

lemma queuedAborted_taskSettled: "queuedAborted m \<Longrightarrow> queuedAborted (taskSettled i m)"
  by (auto simp add: queuedAborted_def taskSettled_def split: option.splits if_splits)

lemma queuedAborted_parentAborted: "queuedAborted m \<Longrightarrow> queuedAborted (snd (parentAborted m))"
  by (auto simp add: queuedAborted_def parentAborted_def abort_def Let_def
      split: option.splits prod.splits if_splits)

lemma queuedAborted_teardown: "queuedAborted m \<Longrightarrow> queuedAborted (snd (TaskManager_teardown m))"
  by (auto simp add: queuedAborted_def TaskManager_teardown_def abort_def Let_def
      split: option.splits prod.splits if_splits)

lemma reachable_queuedAborted: "reachable m \<Longrightarrow> queuedAborted m"
proof (induction rule: reachable.induct)
  case (created t e)
  show ?case by (simp add: queuedAborted_def TaskManager_def)
next
  case (updated m c d i)
  then show ?case by (simp add: queuedAborted_updateConfig)
next
  case (resumed m f c d i)
  then show ?case by (simp add: queuedAborted_updateConfig_start)
next
  case (settled m i)
  then show ?case by (simp add: queuedAborted_taskSettled)
next
  case (parent m)
  then show ?case by (simp add: queuedAborted_parentAborted)
next
  case (torn m)
  then show ?case by (simp add: queuedAborted_teardown)
qed

lemma reachable_activeTask: "reachable m \<Longrightarrow> activeTask m = None"
proof (induction rule: reachable.induct)
  case (created t e)
  show ?case by (simp add: TaskManager_def)
next
  case (updated m c d i)
  then show ?case
    by (simp add: updateConfig_def updateConfig_start_def Let_def abort_def
        split: option.splits prod.splits)
next
  case (resumed m f c d i)
  then show ?case by (simp add: updateConfig_start_def Let_def)
next
  case (settled m i)
  then show ?case by (simp add: taskSettled_def split: option.splits)
next
  case (parent m)
  then show ?case
    by (simp add: parentAborted_def abort_def Let_def split: option.splits prod.splits)
next
  case (torn m)
  then show ?case
    by (simp add: TaskManager_teardown_def abort_def Let_def split: option.splits prod.splits)
qed

lemma queued_updateConfig:
  assumes inv: "queuedAborted m" and act: "outerActiveTask m = Some task" and q: "queued task"
  shows "updateConfig m c d i = ([], ReturnedUndefined, m\<lparr>outerFirstEvent := False\<rparr>)"
proof (cases "interruptible (template m)")
  case True
  with inv act q obtain ac where ac: "abortController task = Some ac" "aborted ac"
    by (auto simp add: queuedAborted_def split: option.splits)
  with True act q show ?thesis
    by (simp add: updateConfig_def Let_def abort_def)
next
  case False
  with act q show ?thesis by (simp add: updateConfig_def Let_def)
qed

text \<open>A call that finds the flag set leaves it set and does not suspend; a call that
  suspends leaves the flag set. So in a burst of calls at most one suspends.\<close>

lemma updateConfig_outcome:
  "updateConfig m c d i = (evs, out, m') \<Longrightarrow>
   (hasQueued m \<longrightarrow> \<not> isAwaiting out \<and> hasQueued m') \<and> (isAwaiting out \<longrightarrow> hasQueued m')"
  by (auto simp add: updateConfig_def updateConfig_start_def hasQueued_def Let_def abort_def
      split: option.splits prod.splits if_splits)

lemma burst_awaits:
  "length (filter isAwaiting (fst (updateConfigs m calls))) \<le> (if hasQueued m then 0 else 1)"
proof (induction calls arbitrary: m)
  case Nil
  show ?case by simp
next
  case (Cons call calls)
  obtain c d i where call: "call = (c, d, i)" by (cases call) auto
  obtain evs out m' where u: "updateConfig m c d i = (evs, out, m')"
    by (cases "updateConfig m c d i") auto
  from updateConfig_outcome [OF u] Cons.IH [of m'] show ?case
    by (auto simp add: call u split: prod.splits if_splits)
qed

text \<open>
  Claim C4. In every state a manager can be in: when the active task has its \<open>queued\<close>
  flag set, a call of \<open>updateConfig\<close> performs no effect, returns \<open>undefined\<close>
  without suspending and without starting a task, and changes nothing of the manager
  but the \<open>firstEvent\<close> latch. A call that suspends on the promise of the active task
  found the flag clear and leaves it set, and a call after which the flag is newly set
  is a call that suspends; in any burst of calls on a manager, with any template, at
  most one call suspends. A flag that is set stays set when the parent signal fires
  and when the manager is torn down; it goes with the record of the task.
\<close>

theorem queued_update_is_dropped:
  "(reachable m \<and> outerActiveTask m = Some task \<and> queued task \<longrightarrow>
      updateConfig m c d i = ([], ReturnedUndefined, m\<lparr>outerFirstEvent := False\<rparr>))
   \<and> (isAwaiting (fst (snd (updateConfig m c d i))) \<longrightarrow>
        \<not> hasQueued m \<and> hasQueued (snd (snd (updateConfig m c d i))))
   \<and> (\<not> hasQueued m \<and> hasQueued (snd (snd (updateConfig m c d i))) \<longrightarrow>
        isAwaiting (fst (snd (updateConfig m c d i))))
   \<and> (hasQueued m \<longrightarrow>
        hasQueued (snd (parentAborted m)) \<and> hasQueued (snd (TaskManager_teardown m)))
   \<and> length (filter isAwaiting (fst (updateConfigs m calls))) \<le> 1"
proof -
  have a: "reachable m \<and> outerActiveTask m = Some task \<and> queued task \<longrightarrow>
      updateConfig m c d i = ([], ReturnedUndefined, m\<lparr>outerFirstEvent := False\<rparr>)"
    using queued_updateConfig [of m task c d i] reachable_queuedAborted [of m] by blast
  obtain evs out m' where u: "updateConfig m c d i = (evs, out, m')"
    by (cases "updateConfig m c d i") auto
  have b: "isAwaiting (fst (snd (updateConfig m c d i))) \<longrightarrow>
        \<not> hasQueued m \<and> hasQueued (snd (snd (updateConfig m c d i)))"
    using updateConfig_outcome [OF u] by (auto simp add: u)
  have c: "\<not> hasQueued m \<and> hasQueued (snd (snd (updateConfig m c d i))) \<longrightarrow>
        isAwaiting (fst (snd (updateConfig m c d i)))"
    by (auto simp add: updateConfig_def updateConfig_start_def hasQueued_def Let_def abort_def
        split: option.splits prod.splits if_splits)
  have d: "length (filter isAwaiting (fst (updateConfigs m calls))) \<le> 1"
    using burst_awaits [of m calls] by (simp split: if_splits)
  have e: "hasQueued m \<longrightarrow>
        hasQueued (snd (parentAborted m)) \<and> hasQueued (snd (TaskManager_teardown m))"
    by (auto simp add: hasQueued_def parentAborted_def TaskManager_teardown_def abort_def Let_def
        split: option.splits prod.splits if_splits)
  from a b c d e show ?thesis by blast
qed

lemma runningManager_eq:
  "runningManager =
     \<lparr> template = defaultTemplate, managerEntryId = ''0'', outerTeardownInitiated = False,
       outerActiveTask = Some \<lparr> abortController = Some \<lparr> aborted = False \<rparr>, id' = ''t0'',
                                promise = ''t0'', queued = False \<rparr>,
       outerFirstEvent = False, activeTask = None,
       managerInitialRun = True, managerPersistent = False \<rparr>"
  by (simp add: runningManager_def updateConfig_def updateConfig_start_def TaskManager_def
      createAbortController_def Let_def defaultTemplate_def)

lemma queuedManager_eq:
  "queuedManager =
     \<lparr> template = defaultTemplate, managerEntryId = ''0'', outerTeardownInitiated = False,
       outerActiveTask = Some queuedTask,
       outerFirstEvent = False, activeTask = None,
       managerInitialRun = True, managerPersistent = False \<rparr>"
  by (simp add: queuedManager_def runningManager_eq updateConfig_def abort_def Let_def
      defaultTemplate_def queuedTask_def)

lemma reachable_queuedManager: "reachable queuedManager"
  unfolding queuedManager_def runningManager_def
  by (intro reachable.updated reachable.created)

theorem queued_update_is_dropped_witness:
  "reachable queuedManager
   \<and> outerActiveTask queuedManager = Some queuedTask
   \<and> queued queuedTask
   \<and> updateConfig queuedManager ''config'' ''c'' ''t2'' = ([], ReturnedUndefined, queuedManager)
   \<and> isAwaiting (fst (snd (updateConfig runningManager ''config'' ''b'' ''t1'')))
   \<and> \<not> hasQueued runningManager
   \<and> hasQueued (snd (snd (updateConfig runningManager ''config'' ''b'' ''t1'')))
   \<and> length (filter isAwaiting (fst (updateConfigs (TaskManager waitingTemplate ''0'') burst))) = 1"
proof -
  have r: "reachable queuedManager" by (rule reachable_queuedManager)
  have act: "outerActiveTask queuedManager = Some queuedTask" by (simp add: queuedManager_eq)
  have q: "queued queuedTask" by (simp add: queuedTask_def)
  have drop: "updateConfig queuedManager ''config'' ''c'' ''t2'' =
      ([], ReturnedUndefined, queuedManager)"
    using queued_update_is_dropped [of queuedManager queuedTask "''config''" "''c''" "''t2''" "[]"]
      r act q
    by (simp add: queuedManager_eq)
  have aw: "isAwaiting (fst (snd (updateConfig runningManager ''config'' ''b'' ''t1'')))"
    by (simp add: runningManager_eq updateConfig_def abort_def Let_def defaultTemplate_def)
  have set: "\<not> hasQueued runningManager \<and>
      hasQueued (snd (snd (updateConfig runningManager ''config'' ''b'' ''t1'')))"
    using queued_update_is_dropped [of runningManager queuedTask "''config''" "''b''" "''t1''" "[]"] aw
    by blast
  have one: "length (filter isAwaiting (fst (updateConfigs (TaskManager waitingTemplate ''0'') burst))) = 1"
    by (simp add: burst_def updateConfig_def updateConfig_start_def TaskManager_def
        createAbortController_def Let_def waitingTemplate_def)
  from r act q drop aw set one show ?thesis by simp
qed

subsection \<open>The first event\<close>

text \<open>No function of the manager reads \<open>initialRun\<close>: the first update of a new
  manager calls \<open>launch\<close>, with \<open>first = true\<close>, whatever the template is.\<close>

lemma first_update_launches:
  "fst (updateConfig (TaskManager t e) c d i) =
     [Launch \<lparr> entryId = e, abortSignal = False, attempt = 0, config = c, first = True,
               taskId = i, data = d \<rparr>]"
  by (simp add: updateConfig_def updateConfig_start_def TaskManager_def
      createAbortController_def runTask_begin_def attemptEvents_def Let_def)

text \<open>
  Claim C7. The claim is that with \<open>initialRun = false\<close> the first event does not
  fire a launch. \<open>watch\<close> rejects a persistent task without \<open>initialRun\<close>, and the
  manager exports the flag, but the \<open>ready\<close> handler triggers the pool whatever the
  flag is, and the pool and the manager do not read it. For a task with
  \<open>initialRun: false\<close> and one entry of data, the \<open>ready\<close> event calls \<open>launch\<close> with
  \<open>first = true\<close> and \<open>attempt = 0\<close>.
\<close>

theorem first_event_launches_without_initialRun:
  "(case watch noInitialRun of
      Inl e \<Rightarrow> []
    | Inr w \<Rightarrow> fst (onReady w (Some (''config'', [Some ''a''])) taskIds)) =
     [Launch (launchContext 0 False)]"
  by code_simp

section \<open>Properties of teardown and of the pool\<close>

lemma teardown_twice:
  "TaskManager_teardown (snd (TaskManager_teardown m)) = ([], snd (TaskManager_teardown m))"
  by (simp add: TaskManager_teardown_def abort_def Let_def split: option.splits prod.splits)

lemma activeTask_teardown [simp]:
  "activeTask (snd (TaskManager_teardown m)) = activeTask m"
  by (simp add: TaskManager_teardown_def abort_def Let_def split: option.splits prod.splits)

lemma teardown_loop_Cons:
  "activeTask m = None \<Longrightarrow>
   teardown_loop ((i, m) # rest) =
     (fst (TaskManager_teardown m) @ fst (teardown_loop rest),
      (i, snd (TaskManager_teardown m)) # snd (teardown_loop rest))"
  by (simp add: Let_def split: prod.splits)

lemma teardown_loop_twice:
  "list_all (\<lambda>im. activeTask (snd im) = None) ms \<Longrightarrow>
   teardown_loop (snd (teardown_loop ms)) = ([], snd (teardown_loop ms))"
proof (induction ms)
  case Nil
  show ?case by simp
next
  case (Cons im ms)
  obtain i m where im: "im = (i, m)" by (cases im) auto
  from Cons.prems im have none: "activeTask m = None" by simp
  from Cons have IH: "teardown_loop (snd (teardown_loop ms)) = ([], snd (teardown_loop ms))"
    by simp
  have none': "activeTask (snd (TaskManager_teardown m)) = None" using none by simp
  show ?case
    unfolding im teardown_loop_Cons [OF none] snd_conv teardown_loop_Cons [OF none']
    by (simp add: IH teardown_twice)
qed

lemma set_update_subset: "set (AList.update k v ms) \<subseteq> insert (k, v) (set ms)"
  by (induction ms) auto

lemma set_delete_subset: "set (AList.delete k ms) \<subseteq> set ms"
  by (induction ms) auto


lemma allReachable_iff: "allReachable ms \<longleftrightarrow> (\<forall>(i, m) \<in> set ms. reachable m)"
  by (auto simp add: allReachable_def list_all_iff)

lemma allReachable_update:
  "allReachable ms \<Longrightarrow> reachable m \<Longrightarrow> allReachable (AList.update i m ms)"
  using set_update_subset [of i m ms] by (auto simp add: allReachable_iff)

lemma allReachable_delete: "allReachable ms \<Longrightarrow> allReachable (AList.delete i ms)"
  using set_delete_subset [of i ms] by (auto simp add: allReachable_iff)

lemma allReachable_map_of: "allReachable ms \<Longrightarrow> map_of ms i = Some m \<Longrightarrow> reachable m"
  by (auto simp add: allReachable_iff dest: map_of_SomeD)

lemma trigger_slot_managers:
  "snd (snd (trigger_slot t c dat newId i ms)) =
     (case dataAt dat i of
        None \<Rightarrow> (case map_of ms i of Some m \<Rightarrow> AList.delete i ms | None \<Rightarrow> ms)
      | Some d \<Rightarrow>
          (case map_of ms i of
             Some m \<Rightarrow> AList.update i (snd (snd (updateConfig m c d (newId i)))) ms
           | None \<Rightarrow>
               AList.update i (snd (snd (updateConfig (TaskManager t (String' i)) c d (newId i))))
                 (AList.update i (TaskManager t (String' i)) ms)))"
  by (simp add: trigger_slot_def Let_def split: option.splits prod.splits)

lemma allReachable_trigger_slot:
  assumes ms: "allReachable ms"
  shows "allReachable (snd (snd (trigger_slot t c dat newId i ms)))"
proof (cases "dataAt dat i")
  case None
  with ms show ?thesis
    by (simp add: trigger_slot_managers allReachable_delete split: option.splits)
next
  case (Some d)
  note d = Some
  show ?thesis
  proof (cases "map_of ms i")
    case None
    have "reachable (snd (snd (updateConfig (TaskManager t (String' i)) c d (newId i))))"
      by (intro reachable.updated reachable.created)
    moreover have "allReachable (AList.update i (TaskManager t (String' i)) ms)"
      using ms by (rule allReachable_update) (rule reachable.created)
    ultimately show ?thesis using ms
      by (simp add: trigger_slot_managers d None allReachable_update)
  next
    case (Some m)
    with ms have "reachable m" by (rule allReachable_map_of)
    then have "reachable (snd (snd (updateConfig m c d (newId i))))"
      by (rule reachable.updated)
    with ms show ?thesis
      by (simp add: trigger_slot_managers d Some allReachable_update)
  qed
qed

lemma allReachable_trigger_loop:
  "allReachable ms \<Longrightarrow> allReachable (snd (trigger_loop t c dat newId is ms))"
proof (induction "is" arbitrary: ms)
  case Nil
  then show ?case by simp
next
  case (Cons i "is")
  obtain evs e ms' where s: "trigger_slot t c dat newId i ms = (evs, e, ms')"
    by (cases "trigger_slot t c dat newId i ms") auto
  from allReachable_trigger_slot [OF Cons.prems, of t c dat newId i] s
  have r: "allReachable ms'" by simp
  show ?case
  proof (cases e)
    case None
    obtain evs' ms'' where l: "trigger_loop t c dat newId is ms' = (evs', ms'')"
      by (cases "trigger_loop t c dat newId is ms'") auto
    from Cons.IH [OF r] l have "allReachable ms''" by simp
    then show ?thesis by (simp add: s None l)
  next
    case (Some err)
    with r show ?thesis by (simp add: s)
  qed
qed

lemma allReachable_teardown_loop:
  "allReachable ms \<Longrightarrow> allReachable (snd (teardown_loop ms))"
proof (induction ms)
  case Nil
  then show ?case by simp
next
  case (Cons im ms)
  obtain i m where im: "im = (i, m)" by (cases im) auto
  from Cons.prems im have m: "reachable m" and ms: "allReachable ms"
    by (simp_all add: allReachable_def)
  then have none: "activeTask m = None" by (simp add: reachable_activeTask)
  have "reachable (snd (TaskManager_teardown m))" using m by (rule reachable.torn)
  with Cons.IH [OF ms] show ?case
    unfolding im teardown_loop_Cons [OF none] by (simp add: allReachable_def)
qed

lemma managers_trigger:
  "managers (snd (trigger p c dat newId)) =
     snd (trigger_loop (poolTemplate p) c dat newId
            [0..<max (length dat) (length (managers p))] (managers p))"
  by (simp add: trigger_def Let_def split: prod.splits)

lemma managers_teardown:
  "managers (snd (ManagerPool_teardown p)) = snd (teardown_loop (managers p))"
  by (simp add: ManagerPool_teardown_def Let_def split: prod.splits)

lemma pool_reachable_managers: "pool_reachable p \<Longrightarrow> allReachable (managers p)"
proof (induction rule: pool_reachable.induct)
  case (pool_created t)
  show ?case by (simp add: ManagerPool_def allReachable_def)
next
  case (pool_triggered p c dat newId)
  then show ?case by (simp only: managers_trigger allReachable_trigger_loop)
next
  case (pool_torn p)
  then show ?case by (simp only: managers_teardown allReachable_teardown_loop)
next
  case (pool_resumed p i m f c d j)
  from pool_resumed.IH pool_resumed.hyps(2) have "reachable m" by (rule allReachable_map_of)
  then have "reachable (snd (snd (updateConfig_start f c d j m)))" by (rule reachable.resumed)
  with pool_resumed.IH show ?case by (simp add: allReachable_update)
next
  case (pool_settled p i m j)
  from pool_settled.IH pool_settled.hyps(2) have "reachable m" by (rule allReachable_map_of)
  then have "reachable (taskSettled j m)" by (rule reachable.settled)
  with pool_settled.IH show ?case by (simp add: allReachable_update)
next
  case (pool_parent p i m)
  from pool_parent.IH pool_parent.hyps(2) have "reachable m" by (rule allReachable_map_of)
  then have "reachable (snd (parentAborted m))" by (rule reachable.parent)
  with pool_parent.IH show ?case by (simp add: allReachable_update)
qed

lemma ManagerPool_teardown_eq:
  "ManagerPool_teardown p =
     (fst (teardown_loop (managers p)), p\<lparr>managers := snd (teardown_loop (managers p))\<rparr>)"
  by (simp add: ManagerPool_teardown_def Let_def split: prod.splits)

lemma ManagerPool_teardown_twice:
  assumes r: "pool_reachable p"
  shows "ManagerPool_teardown (snd (ManagerPool_teardown p)) = ([], snd (ManagerPool_teardown p))"
proof -
  from pool_reachable_managers [OF r]
  have "list_all (\<lambda>im. activeTask (snd im) = None) (managers p)"
    by (auto simp add: allReachable_def list_all_iff dest: reachable_activeTask)
  from teardown_loop_twice [OF this] show ?thesis
    by (simp add: ManagerPool_teardown_eq)
qed

text \<open>
  Claim C8. A second \<open>teardown()\<close> of a manager, in any state, has no effect: it
  performs no cancellation, does not call the hook and leaves the manager as the first
  call left it. The same holds for a second \<open>teardown()\<close> of a pool, in every state a
  pool can be in.
\<close>

theorem teardown_idempotent:
  "TaskManager_teardown (snd (TaskManager_teardown m)) = ([], snd (TaskManager_teardown m))
   \<and> (pool_reachable p \<longrightarrow>
        ManagerPool_teardown (snd (ManagerPool_teardown p)) = ([], snd (ManagerPool_teardown p)))"
  using teardown_twice [of m] ManagerPool_teardown_twice [of p] by blast

lemma runningPool_eq:
  "runningPool = \<lparr> poolTemplate = defaultTemplate, managers = [(0, runningManager)] \<rparr>"
  by code_simp

lemma pool_reachable_runningPool: "pool_reachable runningPool"
  unfolding runningPool_def by (intro pool_reachable.pool_triggered pool_reachable.pool_created)

theorem teardown_idempotent_witness:
  "pool_reachable runningPool
   \<and> fst (ManagerPool_teardown runningPool) = [Aborted ''t0'', TeardownHook]
   \<and> ManagerPool_teardown (snd (ManagerPool_teardown runningPool)) =
       ([], snd (ManagerPool_teardown runningPool))
   \<and> fst (TaskManager_teardown runningManager) = [Aborted ''t0'', TeardownHook]
   \<and> TaskManager_teardown (snd (TaskManager_teardown runningManager)) =
       ([], snd (TaskManager_teardown runningManager))"
proof -
  have ev: "fst (ManagerPool_teardown runningPool) = [Aborted ''t0'', TeardownHook]"
    by (simp add: runningPool_eq runningManager_eq ManagerPool_teardown_def
        TaskManager_teardown_def abort_def defaultTemplate_def Let_def)
  have ev': "fst (TaskManager_teardown runningManager) = [Aborted ''t0'', TeardownHook]"
    by (simp add: runningManager_eq TaskManager_teardown_def abort_def defaultTemplate_def Let_def)
  show ?thesis
    using teardown_idempotent [of runningManager runningPool] pool_reachable_runningPool ev ev'
    by simp
qed

text \<open>In a state a pool can be in, \<open>teardown\<close> of the pool never reaches the
  \<open>await\<close> of line 361.\<close>

lemma teardown_loop_awaits_nothing:
  "list_all (\<lambda>im. activeTask (snd im) = None) ms \<Longrightarrow>
   AwaitPromise x \<notin> set (fst (teardown_loop ms))"
proof (induction ms)
  case Nil
  show ?case by simp
next
  case (Cons im ms)
  obtain i m where im: "im = (i, m)" by (cases im) auto
  from Cons.prems im have none: "activeTask m = None" by simp
  have "AwaitPromise x \<notin> set (fst (TaskManager_teardown m))"
    by (simp add: TaskManager_teardown_def abort_def Let_def
        split: option.splits prod.splits HookResult.splits)
  with Cons show ?case
    unfolding im teardown_loop_Cons [OF none] by simp
qed

lemma pool_teardown_never_awaits:
  assumes r: "pool_reachable p"
  shows "AwaitPromise x \<notin> set (fst (ManagerPool_teardown p))"
proof -
  from pool_reachable_managers [OF r]
  have "list_all (\<lambda>im. activeTask (snd im) = None) (managers p)"
    by (auto simp add: allReachable_def list_all_iff dest: reachable_activeTask)
  from teardown_loop_awaits_nothing [OF this] show ?thesis
    by (simp add: ManagerPool_teardown_eq)
qed

text \<open>
  Claim C1. The claim is that \<open>teardown()\<close> of the pool awaits the promise of the
  active task of each manager before it calls \<open>teardown()\<close> of that manager. The pool
  reads the field \<open>activeTask\<close> of the manager record, which is \<open>null\<close> from the
  construction of the manager on, while the task lives in the variable
  \<open>outerActiveTask\<close>. In the pool with one task in flight on slot 0, whose promise is
  pending, \<open>teardown()\<close> of the pool awaits nothing: it aborts the task and calls the
  hook at once.
\<close>

theorem pool_teardown_awaits_nothing:
  "map (\<lambda>(i, m). (i, outerActiveTask m, activeTask m)) (managers runningPool) =
     [(0, Some pendingTask, None)]
   \<and> fst (ManagerPool_teardown runningPool) = [Aborted ''t0'', TeardownHook]"
  by (simp add: runningPool_eq runningManager_eq pendingTask_def ManagerPool_teardown_def
      TaskManager_teardown_def abort_def defaultTemplate_def Let_def)

text \<open>
  Claim C5. The claim is that after each \<open>trigger\<close> the map holds exactly the indices
  at which the last array of data has a defined entry. The loop runs up to
  \<open>max(data.length, managers.size)\<close>, and the size of the map is the number of its keys,
  not the largest key plus one. After a trigger with a hole at index 0 and an entry at
  index 1 the map holds the key 1 alone; a trigger with the empty array then visits
  index 0 only, and the manager of slot 1 stays in the map.
\<close>

theorem manager_survives_at_hole:
  "map fst (managers holePool) = [1]
   \<and> map fst (managers shrunkPool) = [1]
   \<and> definedIndices [] = {}"
proof -
  have "map fst (managers holePool) = [1]" by code_simp
  moreover have "map fst (managers shrunkPool) = [1]" by code_simp
  moreover have "definedIndices [] = {}" by (simp add: definedIndices_def)
  ultimately show ?thesis by simp
qed

section \<open>Properties of \<open>defineConfigWatcher\<close>\<close>

text \<open>
  Claim C10. Every property of the result other than \<open>Watcher\<close> is the property of the
  input; \<open>Watcher\<close> is \<open>TurboWatcher\<close> when the input has no property \<open>Watcher\<close>, and
  the value of the input when it has one.
\<close>

theorem defineConfigWatcher_frame:
  "(k \<noteq> ''Watcher'' \<longrightarrow> defineConfigWatcher configurationInput k = configurationInput k)
   \<and> (configurationInput ''Watcher'' = None \<longrightarrow>
        defineConfigWatcher configurationInput ''Watcher'' = Some TurboWatcher)
   \<and> (configurationInput ''Watcher'' = Some v \<longrightarrow>
        defineConfigWatcher configurationInput ''Watcher'' = Some v)"
  by (auto simp add: defineConfigWatcher_def map_add_def split: option.splits)

theorem defineConfigWatcher_frame_witness:
  "''configPath'' \<noteq> ''Watcher''
   \<and> defineConfigWatcher plainInput ''configPath'' = Some (Value ''eirenewatch.json'')
   \<and> plainInput ''Watcher'' = None
   \<and> defineConfigWatcher plainInput ''Watcher'' = Some TurboWatcher
   \<and> chokidarInput ''Watcher'' = Some (Value ''ChokidarWatcher'')
   \<and> defineConfigWatcher chokidarInput ''Watcher'' = Some (Value ''ChokidarWatcher'')"
  using defineConfigWatcher_frame [of "''configPath''" plainInput "Value ''x''"]
    defineConfigWatcher_frame [of "''configPath''" chokidarInput "Value ''ChokidarWatcher''"]
  by (simp add: plainInput_def chokidarInput_def)

end
